theory Spec2Isabelle
  imports Main "HOL-Library.AList" "HOL-Library.Multiset"
begin

section \<open>Identifiers\<close>

text \<open>
  \<^verbatim>\<open>bson.ObjectId\<close> is declared as \<^verbatim>\<open>type ObjectId string\<close>: a Go string holding raw
  bytes. An Isabelle \<open>char\<close> is one byte, so the identifier is a \<open>string\<close>.
\<close>

type_synonym ObjectId = string

text \<open>What makes a Go call stop without returning: a \<^verbatim>\<open>panic\<close>.\<close>

datatype panic = BadObjectIdHex string | PanicMsg string

datatype 'a outcome = Returns 'a | Panics panic

text \<open>
  \<^verbatim>\<open>bson.ObjectIdHex\<close> belongs to the library \<^verbatim>\<open>gopkg.in/mgo.v2/bson\<close>, which the store
  imports. Its behaviour is taken from the library: the argument is decoded with
  \<^verbatim>\<open>hex.DecodeString\<close>, and the call panics when the decoding fails or does not give
  exactly 12 bytes (``Calling this function with an invalid hex representation will
  cause a runtime panic'').
\<close>

definition fromHexChar :: "char \<Rightarrow> nat option" where
  "fromHexChar c =
     (let n = (of_char c :: nat) in
      if 48 \<le> n \<and> n \<le> 57 then Some (n - 48)
      else if 97 \<le> n \<and> n \<le> 102 then Some (n - 97 + 10)
      else if 65 \<le> n \<and> n \<le> 70 then Some (n - 65 + 10)
      else None)"

fun DecodeString :: "string \<Rightarrow> string option" where
  "DecodeString [] = Some []"
| "DecodeString [c] = None"
| "DecodeString (a # b # rest) =
     (case fromHexChar a of
        None \<Rightarrow> None
      | Some hi \<Rightarrow>
          (case fromHexChar b of
             None \<Rightarrow> None
           | Some lo \<Rightarrow>
               (case DecodeString rest of
                  None \<Rightarrow> None
                | Some d \<Rightarrow> Some (char_of (16 * hi + lo) # d))))"

definition ObjectIdHex :: "string \<Rightarrow> ObjectId outcome" where
  "ObjectIdHex s =
     (case DecodeString s of
        None \<Rightarrow> Panics (BadObjectIdHex s)
      | Some d \<Rightarrow> if length d \<noteq> 12 then Panics (BadObjectIdHex s) else Returns d)"

text \<open>The identifier reserved for the host named localhost: twelve zero bytes.\<close>

definition localhost_id :: ObjectId where
  "localhost_id = replicate 12 (CHR 0x00)"

section \<open>The process around the store\<close>

text \<open>
  Two pieces of state live outside the store and are threaded through the calls.

  \<^item> \<^verbatim>\<open>bson.NewObjectId()\<close> draws on the library's global generator (clock, machine,
    process number, counter). The store only consumes what the generator returns, so the
    generator is the sequence \<open>id_supply\<close> of the identifiers it hands out, call by call,
    and the number \<open>issued\<close> of calls made so far.
  \<^item> A transport or an agent is built by \<^verbatim>\<open>construct()\<close>, filled in place by
    \<^verbatim>\<open>meta.PrimitiveDecode(primitive, transport)\<close> and then stored in
    \<^verbatim>\<open>host.Transport\<close>: the interface value is a reference to a mutable plugin instance.
    \<open>objs\<close> is the memory holding these instances; a reference is an index into it, and
    a construction appends a new cell. \<open>'p\<close> is the type of the instances' contents,
    which the plugins decide.
\<close>

type_synonym addr = nat

record 'p world =
  id_supply :: "nat \<Rightarrow> ObjectId"
  issued :: nat
  objs :: "'p list"

definition NewObjectId :: "'p world \<Rightarrow> ObjectId \<times> 'p world" where
  "NewObjectId w = (id_supply w (issued w), w\<lparr>issued := Suc (issued w)\<rparr>)"

text \<open>Calling a registered constructor: a new instance with the constructor's initial contents.\<close>

definition construct :: "'p \<Rightarrow> 'p world \<Rightarrow> addr \<times> 'p world" where
  "construct init w = (length (objs w), w\<lparr>objs := objs w @ [init]\<rparr>)"

section \<open>Hosts, monitors and the store\<close>

text \<open>
  The declarations of \<^verbatim>\<open>Host\<close> and \<^verbatim>\<open>Monitor\<close> are in other files of the package; their
  fields are those the store reads and writes. \<^verbatim>\<open>Transport\<close> and \<^verbatim>\<open>Agent\<close> are interface
  values: \<open>None\<close> is the nil interface, \<open>Some a\<close> a reference to a plugin instance.
  \<^verbatim>\<open>Interval\<close> is a \<^verbatim>\<open>time.Duration\<close>, a count of nanoseconds.
\<close>

record Host =
  Host_Id :: ObjectId
  Host_Name :: string
  Host_TransportId :: string
  Host_Transport :: "addr option"

record Job =
  Job_Agent :: "addr option"

record Monitor =
  Monitor_Id :: ObjectId
  Monitor_HostId :: ObjectId
  Monitor_Interval :: int
  Monitor_Job :: Job

definition Second :: int where
  "Second = 1000000000"

datatype error =
    ErrHostNotFound
  | ErrMonitorNotFound
  | ErrorInvalidId
  | Errorf string
  | DecodeError string

text \<open>
  The \<^verbatim>\<open>Broadcaster\<close> is an interface of the package. It is modelled by the events it has
  been given, oldest first. Each event keeps, besides its name and the entity passed to
  \<^verbatim>\<open>Broadcast\<close>, the two collections as they stand when \<^verbatim>\<open>Broadcast\<close> is called: what a
  subscriber finds in the store when the event is delivered. These two fields are
  history variables; no operation reads them.
\<close>

datatype payload = HostPayload Host | MonitorPayload Monitor

record event =
  ev_name :: string
  ev_data :: payload
  seen_hosts :: "(ObjectId \<times> Host) list"
  seen_monitors :: "(ObjectId \<times> Monitor) list"

text \<open>
  The two Go maps are association lists with \<^const>\<open>AList.update\<close>, \<^const>\<open>AList.delete\<close>
  and \<^const>\<open>map_of\<close> for assignment, \<^verbatim>\<open>delete\<close> and lookup. The field \<^verbatim>\<open>metadata\<close> is
  never assigned or read and is left out.
\<close>

record ConfigurationStore =
  changes :: "event list"
  hosts :: "(ObjectId \<times> Host) list"
  monitors :: "(ObjectId \<times> Monitor) list"

definition Broadcast :: "string \<Rightarrow> payload \<Rightarrow> ConfigurationStore \<Rightarrow> ConfigurationStore" where
  "Broadcast name d s =
     s\<lparr>changes := changes s @
          [\<lparr>ev_name = name, ev_data = d, seen_hosts = hosts s, seen_monitors = monitors s\<rparr>]\<rparr>"

text \<open>\<^verbatim>\<open>fmt.Errorf("... '%s' ...", x)\<close> puts \<open>x\<close> between single quotes.\<close>

definition quoted :: "string \<Rightarrow> string" where
  "quoted x = [CHR 0x27] @ x @ [CHR 0x27]"

section \<open>Reading the store\<close>


fun GetHostByName_loop :: "(ObjectId \<times> Host) list \<Rightarrow> string \<Rightarrow> error + Host" where
  "GetHostByName_loop [] name = Inl (Errorf (''Host '' @ quoted name @ '' not found''))"
| "GetHostByName_loop ((k, host) # rest) name =
     (if Host_Name host = name then Inr host else GetHostByName_loop rest name)"

definition GetHostByName ::
  "((ObjectId \<times> Host) list \<Rightarrow> (ObjectId \<times> Host) list) \<Rightarrow> ConfigurationStore \<Rightarrow> string
     \<Rightarrow> error + Host" where
  "GetHostByName order s name = GetHostByName_loop (order (hosts s)) name"

definition GetHost :: "ConfigurationStore \<Rightarrow> string \<Rightarrow> (error + Host) outcome" where
  "GetHost s id' =
     (case ObjectIdHex id' of
        Panics p \<Rightarrow> Panics p
      | Returns k \<Rightarrow>
          (case map_of (hosts s) k of
             None \<Rightarrow> Returns (Inl ErrorInvalidId)
           | Some host \<Rightarrow> Returns (Inr host)))"

fun GetMonitor_loop :: "(ObjectId \<times> Monitor) list \<Rightarrow> string \<Rightarrow> (error + Monitor) outcome" where
  "GetMonitor_loop [] id' = Returns (Inl ErrMonitorNotFound)"
| "GetMonitor_loop ((k, monitor) # rest) id' =
     (case ObjectIdHex id' of
        Panics p \<Rightarrow> Panics p
      | Returns k' \<Rightarrow>
          if Monitor_Id monitor = k' then Returns (Inr monitor) else GetMonitor_loop rest id')"

definition GetMonitor ::
  "((ObjectId \<times> Monitor) list \<Rightarrow> (ObjectId \<times> Monitor) list) \<Rightarrow> ConfigurationStore \<Rightarrow> string
     \<Rightarrow> (error + Monitor) outcome" where
  "GetMonitor order s id' = GetMonitor_loop (order (monitors s)) id'"

section \<open>Changing the store\<close>

text \<open>
  \<^verbatim>\<open>AddHost\<close> and \<^verbatim>\<open>AddMonitor\<close> write the new identifier through the caller's pointer:
  the entity as the caller finds it afterwards is part of the result.
\<close>

definition AddHost ::
  "'p world \<Rightarrow> ConfigurationStore \<Rightarrow> Host
     \<Rightarrow> error option \<times> Host \<times> ConfigurationStore \<times> 'p world" where
  "AddHost w s host =
     (let (new, w1) = NewObjectId w;
          host1 = host\<lparr>Host_Id := new\<rparr>;
          s1 = s\<lparr>hosts := AList.update (Host_Id host1) host1 (hosts s)\<rparr>;
          s2 = Broadcast ''hostadd'' (HostPayload host1) s1
      in (None, host1, s2, w1))"

definition DeleteHost ::
  "ConfigurationStore \<Rightarrow> string \<Rightarrow> (error option \<times> ConfigurationStore) outcome" where
  "DeleteHost s id' =
     (case ObjectIdHex id' of
        Panics p \<Rightarrow> Panics p
      | Returns k \<Rightarrow>
          (case map_of (hosts s) k of
             None \<Rightarrow> Returns (Some ErrHostNotFound, s)
           | Some host \<Rightarrow>
               (case ObjectIdHex id' of
                  Panics p \<Rightarrow> Panics p
                | Returns k' \<Rightarrow>
                    let s1 = s\<lparr>hosts := AList.delete k' (hosts s)\<rparr>;
                        s2 = Broadcast ''hostdelete'' (HostPayload host) s1
                    in Returns (None, s2))))"

definition AddMonitor ::
  "'p world \<Rightarrow> ConfigurationStore \<Rightarrow> Monitor
     \<Rightarrow> error option \<times> Monitor \<times> ConfigurationStore \<times> 'p world" where
  "AddMonitor w s mon =
     (let (new, w1) = NewObjectId w;
          mon1 = mon\<lparr>Monitor_Id := new\<rparr>;
          s1 = s\<lparr>monitors := AList.update (Monitor_Id mon1) mon1 (monitors s)\<rparr>;
          s2 = Broadcast ''monadd'' (MonitorPayload mon1) s1
      in (None, mon1, s2, w1))"

definition UpdateMonitor ::
  "ConfigurationStore \<Rightarrow> Monitor \<Rightarrow> error option \<times> ConfigurationStore" where
  "UpdateMonitor s mon =
     (let s1 = s\<lparr>monitors := AList.update (Monitor_Id mon) mon (monitors s)\<rparr>;
          s2 = Broadcast ''monchange'' (MonitorPayload mon) s1
      in (None, s2))"

definition DeleteMonitor ::
  "ConfigurationStore \<Rightarrow> string \<Rightarrow> (error option \<times> ConfigurationStore) outcome" where
  "DeleteMonitor s id' =
     (case ObjectIdHex id' of
        Panics p \<Rightarrow> Panics p
      | Returns k \<Rightarrow>
          (case map_of (monitors s) k of
             None \<Rightarrow> Returns (Some ErrMonitorNotFound, s)
           | Some mon \<Rightarrow>
               (case ObjectIdHex id' of
                  Panics p \<Rightarrow> Panics p
                | Returns k' \<Rightarrow>
                    let s1 = s\<lparr>monitors := AList.delete k' (monitors s)\<rparr>;
                        s2 = Broadcast ''mondelete'' (MonitorPayload mon) s1
                    in Returns (None, s2))))"

section \<open>Loading the configuration\<close>

text \<open>
  The raw records are \<^verbatim>\<open>toml.Primitive\<close> values and \<^verbatim>\<open>meta.PrimitiveDecode\<close> belongs to
  the TOML library; the plugin registries belong to the package \<^verbatim>\<open>plugins\<close>. A raw
  record is given by what the loader can ask of it:
  \<^item> \<open>decode_Host\<close>: the result of \<^verbatim>\<open>meta.PrimitiveDecode(primitiveHost, &host)\<close> on the
    zero \<^verbatim>\<open>Host\<close>, an error text or the filled structure;
  \<^item> \<open>decode_Transport\<close>: the result of \<^verbatim>\<open>meta.PrimitiveDecode(primitiveHost, transport)\<close>
    on an instance with the given contents, an error text or the new contents;
  \<^item> \<open>decode_proxy\<close> and \<open>decode_Agent\<close>, the same for a monitor record;
  \<^item> \<open>raw_interval\<close>: the interval the monitor record specifies, if it specifies one.
\<close>

record 'p PrimitiveHost =
  decode_Host :: "string + Host"
  decode_Transport :: "'p \<Rightarrow> string + 'p"

record proxy =
  proxy_Host :: string
  proxy_AgentID :: string

record 'p PrimitiveMonitor =
  decode_proxy :: "string + proxy"
  decode_Agent :: "'p \<Rightarrow> string + 'p"
  raw_interval :: "int option"

text \<open>
  \<^verbatim>\<open>config.GetAllHosts()\<close> returns a Go map from host names to raw records, which the
  loader ranges over: \<open>AllHosts\<close> lists its entries in the order of that range.
  \<^verbatim>\<open>config.GetAllMonitors()\<close> returns the monitor records.
\<close>

record 'p Configuration =
  AllHosts :: "(string \<times> 'p PrimitiveHost) list"
  AllMonitors :: "'p PrimitiveMonitor list"

text \<open>
  \<^verbatim>\<open>plugins.GetTransports()\<close> and \<^verbatim>\<open>plugins.GetAgents()\<close>: a constructor is given by the
  contents of the instance it builds.
\<close>

record 'p plugins =
  GetTransports :: "string \<rightharpoonup> 'p"
  GetAgents :: "string \<rightharpoonup> 'p"

datatype 'a load = Loaded 'a | Failed error | Aborted panic

text \<open>The body of the first loop, for one entry of the hosts section.\<close>

definition load_host ::
  "'p plugins \<Rightarrow> string \<times> 'p PrimitiveHost \<Rightarrow> ConfigurationStore \<Rightarrow> 'p world
     \<Rightarrow> (ConfigurationStore \<times> 'p world) load" where
  "load_host P entry s w =
     (let (name, primitiveHost) = entry in
      case decode_Host primitiveHost of
        Inl err \<Rightarrow> Failed (DecodeError err)
      | Inr host0 \<Rightarrow>
          let host1 = host0\<lparr>Host_Name := name\<rparr> in
          (case (if Host_Name host1 = ''localhost''
                 then (case ObjectIdHex ''000000000000000000000000'' of
                         Panics p \<Rightarrow> Panics p
                       | Returns z \<Rightarrow> Returns (host1\<lparr>Host_Id := z\<rparr>, w))
                 else (let (new, w') = NewObjectId w in Returns (host1\<lparr>Host_Id := new\<rparr>, w')))
           of
             Panics p \<Rightarrow> Aborted p
           | Returns (host2, w1) \<Rightarrow>
               (case GetTransports P (Host_TransportId host2) of
                  None \<Rightarrow>
                    Failed (Errorf (''unknown transport '' @ quoted (Host_TransportId host2)))
                | Some init \<Rightarrow>
                    let (transport, w2) = construct init w1 in
                    (case decode_Transport primitiveHost (objs w2 ! transport) of
                       Inl err \<Rightarrow> Aborted (PanicMsg err)
                     | Inr filled \<Rightarrow>
                         let w3 = w2\<lparr>objs := (objs w2)[transport := filled]\<rparr>;
                             host3 = host2\<lparr>Host_Transport := Some transport\<rparr>;
                             s1 = s\<lparr>hosts := AList.update (Host_Id host3) host3 (hosts s)\<rparr>
                         in Loaded (s1, w3)))))"

fun load_hosts ::
  "'p plugins \<Rightarrow> (string \<times> 'p PrimitiveHost) list \<Rightarrow> ConfigurationStore \<Rightarrow> 'p world
     \<Rightarrow> (ConfigurationStore \<times> 'p world) load" where
  "load_hosts P [] s w = Loaded (s, w)"
| "load_hosts P (entry # rest) s w =
     (case load_host P entry s w of
        Failed err \<Rightarrow> Failed err
      | Aborted p \<Rightarrow> Aborted p
      | Loaded (s1, w1) \<Rightarrow> load_hosts P rest s1 w1)"

text \<open>The body of the second loop, for one record of the monitors section.\<close>

definition load_monitor ::
  "'p plugins \<Rightarrow> ((ObjectId \<times> Host) list \<Rightarrow> (ObjectId \<times> Host) list)
     \<Rightarrow> 'p PrimitiveMonitor \<Rightarrow> ConfigurationStore \<Rightarrow> 'p world
     \<Rightarrow> (ConfigurationStore \<times> 'p world) load" where
  "load_monitor P order primitiveMonitor s w =
     (let monitor0 = \<lparr>Monitor_Id = [], Monitor_HostId = [], Monitor_Interval = Second * 10,
                      Monitor_Job = \<lparr>Job_Agent = None\<rparr>\<rparr> in
      case decode_proxy primitiveMonitor of
        Inl err \<Rightarrow> Failed (DecodeError err)
      | Inr proxy \<Rightarrow>
          (case GetHostByName order s (proxy_Host proxy) of
             Inl err \<Rightarrow> Failed err
           | Inr host \<Rightarrow>
               let monitor1 = monitor0\<lparr>Monitor_HostId := Host_Id host\<rparr>;
                   (new, w1) = NewObjectId w;
                   monitor2 = monitor1\<lparr>Monitor_Id := new\<rparr>
               in
               (case GetAgents P (proxy_AgentID proxy) of
                  None \<Rightarrow> Failed (Errorf (''unknown agent '' @ quoted (proxy_AgentID proxy)))
                | Some init \<Rightarrow>
                    let (agent, w2) = construct init w1 in
                    (case decode_Agent primitiveMonitor (objs w2 ! agent) of
                       Inl err \<Rightarrow> Aborted (PanicMsg err)
                     | Inr filled \<Rightarrow>
                         let w3 = w2\<lparr>objs := (objs w2)[agent := filled]\<rparr>;
                             monitor3 = monitor2\<lparr>Monitor_Job := \<lparr>Job_Agent = Some agent\<rparr>\<rparr>;
                             s1 = s\<lparr>monitors :=
                                     AList.update (Monitor_Id monitor3) monitor3 (monitors s)\<rparr>
                         in Loaded (s1, w3)))))"

fun load_monitors ::
  "'p plugins \<Rightarrow> ((ObjectId \<times> Host) list \<Rightarrow> (ObjectId \<times> Host) list)
     \<Rightarrow> 'p PrimitiveMonitor list \<Rightarrow> ConfigurationStore \<Rightarrow> 'p world
     \<Rightarrow> (ConfigurationStore \<times> 'p world) load" where
  "load_monitors P order [] s w = Loaded (s, w)"
| "load_monitors P order (primitiveMonitor # rest) s w =
     (case load_monitor P order primitiveMonitor s w of
        Failed err \<Rightarrow> Failed err
      | Aborted p \<Rightarrow> Aborted p
      | Loaded (s1, w1) \<Rightarrow> load_monitors P order rest s1 w1)"

text \<open>
  The constructor: an empty store around the broadcaster it is given, the hosts section,
  then the monitors section. A \<^verbatim>\<open>return nil, err\<close> is \<open>Failed\<close>, a \<^verbatim>\<open>panic\<close> is
  \<open>Aborted\<close>; only \<open>Loaded\<close> carries a store.
\<close>

definition NewConfigurationStore ::
  "'p plugins \<Rightarrow> ((ObjectId \<times> Host) list \<Rightarrow> (ObjectId \<times> Host) list) \<Rightarrow> 'p world
     \<Rightarrow> 'p Configuration \<Rightarrow> event list \<Rightarrow> (ConfigurationStore \<times> 'p world) load" where
  "NewConfigurationStore P order w config changes0 =
     (let s = \<lparr>changes = changes0, hosts = [], monitors = []\<rparr> in
      case load_hosts P (AllHosts config) s w of
        Failed err \<Rightarrow> Failed err
      | Aborted p \<Rightarrow> Aborted p
      | Loaded (s1, w1) \<Rightarrow> load_monitors P order (AllMonitors config) s1 w1)"

section \<open>Sequences of calls\<close>

text \<open>
  The mutating operations, as a caller issues them one after the other on a loaded
  store. A call that panics ends the run.
\<close>

datatype call =
    Call_AddHost Host
  | Call_DeleteHost string
  | Call_AddMonitor Monitor
  | Call_UpdateMonitor Monitor
  | Call_DeleteMonitor string

fun perform ::
  "call \<Rightarrow> ConfigurationStore \<times> 'p world \<Rightarrow> (ConfigurationStore \<times> 'p world) outcome" where
  "perform (Call_AddHost host) (s, w) =
     (let (err, host', s', w') = AddHost w s host in Returns (s', w'))"
| "perform (Call_DeleteHost id') (s, w) =
     (case DeleteHost s id' of Panics p \<Rightarrow> Panics p | Returns (err, s') \<Rightarrow> Returns (s', w))"
| "perform (Call_AddMonitor mon) (s, w) =
     (let (err, mon', s', w') = AddMonitor w s mon in Returns (s', w'))"
| "perform (Call_UpdateMonitor mon) (s, w) =
     (let (err, s') = UpdateMonitor s mon in Returns (s', w))"
| "perform (Call_DeleteMonitor id') (s, w) =
     (case DeleteMonitor s id' of Panics p \<Rightarrow> Panics p | Returns (err, s') \<Rightarrow> Returns (s', w))"

fun perform_all ::
  "call list \<Rightarrow> ConfigurationStore \<times> 'p world \<Rightarrow> (ConfigurationStore \<times> 'p world) outcome" where
  "perform_all [] st = Returns st"
| "perform_all (c # cs) st =
     (case perform c st of Panics p \<Rightarrow> Panics p | Returns st' \<Rightarrow> perform_all cs st')"

section \<open>Properties the claims are stated with\<close>

text \<open>Every entry of either collection is stored under its own identifier.\<close>

definition keys_consistent :: "ConfigurationStore \<Rightarrow> bool" where
  "keys_consistent s =
     (list_all (\<lambda>(k, host). Host_Id host = k) (hosts s) \<and>
      list_all (\<lambda>(k, mon). Monitor_Id mon = k) (monitors s))"

text \<open>
  The identifiers the generator has handed out from call \<open>n\<close> on, and what the
  library promises of them: no identifier twice, and never the reserved one.
\<close>

definition issued_ids :: "nat \<Rightarrow> 'p world \<Rightarrow> ObjectId list" where
  "issued_ids n w = map (id_supply w) [n..<issued w]"

definition collision_free :: "nat \<Rightarrow> 'p world \<Rightarrow> bool" where
  "collision_free n w = (distinct (issued_ids n w) \<and> localhost_id \<notin> set (issued_ids n w))"

text \<open>
  The loader's rule for a stored host: it is stored under its own identifier, which is
  the reserved one when the host is named localhost and otherwise one of those the
  generator has handed out since call \<open>n\<close>.
\<close>

definition host_id_rule :: "nat \<Rightarrow> 'p world \<Rightarrow> ObjectId \<times> Host \<Rightarrow> bool" where
  "host_id_rule n w entry =
     (case entry of
        (k, host) \<Rightarrow>
          Host_Id host = k \<and>
          (if Host_Name host = ''localhost'' then k = localhost_id
           else k \<in> set (issued_ids n w)))"



text \<open>A host record that passes every step of the first loop's body.\<close>

definition host_record_ok :: "'p plugins \<Rightarrow> string \<times> 'p PrimitiveHost \<Rightarrow> bool" where
  "host_record_ok P entry =
     (case decode_Host (snd entry) of
        Inl err \<Rightarrow> False
      | Inr host0 \<Rightarrow>
          (case GetTransports P (Host_TransportId host0) of
             None \<Rightarrow> False
           | Some init \<Rightarrow>
               (case decode_Transport (snd entry) init of Inl err \<Rightarrow> False | Inr filled \<Rightarrow> True)))"

section \<open>Notions used in the proofs\<close>

text \<open>The generator later on: the same sequence, at least as many calls made.\<close>

definition later :: "'p world \<Rightarrow> 'p world \<Rightarrow> bool" where
  "later w w' = (id_supply w' = id_supply w \<and> issued w \<le> issued w')"

text \<open>
  Every key of the hosts collection is the reserved identifier or one the generator has
  handed out since call \<open>n\<close>.
\<close>

definition host_keys_issued :: "nat \<Rightarrow> ConfigurationStore \<times> 'p world \<Rightarrow> bool" where
  "host_keys_issued n st =
     (n \<le> issued (snd st) \<and>
      list_all (\<lambda>(k, host). k = localhost_id \<or> k \<in> set (issued_ids n (snd st))) (hosts (fst st)))"

section \<open>A small installation\<close>

text \<open>
  Concrete values on which the theorems are exercised: a generator handing out
  \<open>iiiiiiiiiii0\<close>, \<open>iiiiiiiiiii1\<close>, ..., one transport plugin and one agent plugin whose
  instances are strings, a hosts section with \<open>localhost\<close> and \<open>web\<close>, and one monitor on
  \<open>web\<close> that asks for an interval of 30 seconds.
\<close>

definition ex_supply :: "nat \<Rightarrow> ObjectId" where
  "ex_supply n = replicate 11 (CHR ''i'') @ [char_of (48 + n)]"

definition ex_world :: "string world" where
  "ex_world = \<lparr>id_supply = ex_supply, issued = 0, objs = []\<rparr>"

definition ex_plugins :: "string plugins" where
  "ex_plugins = \<lparr>GetTransports = [''ssh'' \<mapsto> ''''], GetAgents = [''ping'' \<mapsto> '''']\<rparr>"

definition ex_host_record :: "string \<Rightarrow> string PrimitiveHost" where
  "ex_host_record t =
     \<lparr>decode_Host =
        Inr \<lparr>Host_Id = [], Host_Name = [], Host_TransportId = t, Host_Transport = None\<rparr>,
      decode_Transport = (\<lambda>contents. Inr ''port=22'')\<rparr>"

definition ex_monitor_record :: "string \<Rightarrow> string PrimitiveMonitor" where
  "ex_monitor_record h =
     \<lparr>decode_proxy = Inr \<lparr>proxy_Host = h, proxy_AgentID = ''ping''\<rparr>,
      decode_Agent = (\<lambda>contents. Inr ''count=3''),
      raw_interval = Some (30 * Second)\<rparr>"

definition ex_config :: "string Configuration" where
  "ex_config =
     \<lparr>AllHosts = [(''localhost'', ex_host_record ''ssh''), (''web'', ex_host_record ''ssh'')],
      AllMonitors = [ex_monitor_record ''web'']\<rparr>"

definition ex_order :: "(ObjectId \<times> Host) list \<Rightarrow> (ObjectId \<times> Host) list" where
  "ex_order xs = rev xs"

text \<open>A caller's host that arrives with an identifier already filled in, and a monitor.\<close>

definition ex_host :: Host where
  "ex_host =
     \<lparr>Host_Id = localhost_id, Host_Name = ''db'', Host_TransportId = ''ssh'',
      Host_Transport = None\<rparr>"

definition ex_monitor :: Monitor where
  "ex_monitor =
     \<lparr>Monitor_Id = ''iiiiiiiiiii9'', Monitor_HostId = localhost_id,
      Monitor_Interval = 5 * Second, Monitor_Job = \<lparr>Job_Agent = None\<rparr>\<rparr>"

definition ex_calls :: "call list" where
  "ex_calls =
     [Call_AddHost ex_host, Call_AddMonitor ex_monitor, Call_UpdateMonitor ex_monitor,
      Call_DeleteMonitor ''696969696969696969696939'',
      Call_DeleteHost ''000000000000000000000000'']"

text \<open>
  Two faulty hosts sections. In the first, the record of \<open>alpha\<close> does not decode and
  the record of \<open>beta\<close> selects a transport that is not registered. In the second, the
  only record selects a transport that is not registered.
\<close>

definition ex_broken_record :: "string PrimitiveHost" where
  "ex_broken_record =
     \<lparr>decode_Host = Inl ''type mismatch'', decode_Transport = (\<lambda>contents. Inr contents)\<rparr>"

definition ex_config_two_faults :: "string Configuration" where
  "ex_config_two_faults =
     \<lparr>AllHosts = [(''alpha'', ex_broken_record), (''beta'', ex_host_record ''telnet'')],
      AllMonitors = []\<rparr>"

definition ex_config_telnet :: "string Configuration" where
  "ex_config_telnet =
     \<lparr>AllHosts = [(''web'', ex_host_record ''ssh''), (''beta'', ex_host_record ''telnet'')],
      AllMonitors = []\<rparr>"




section \<open>The loop bodies, step by step\<close>

lemma ObjectIdHex_localhost:
  "ObjectIdHex ''000000000000000000000000'' = Returns localhost_id"
  by code_simp

lemma load_host_Loaded:
  "load_host P (name, ph) s w = Loaded (s', w') \<longleftrightarrow>
     (\<exists>h0 init filled.
        decode_Host ph = Inr h0 \<and>
        GetTransports P (Host_TransportId h0) = Some init \<and>
        decode_Transport ph init = Inr filled \<and>
        s' = s\<lparr>hosts :=
               AList.update (if name = ''localhost'' then localhost_id else id_supply w (issued w))
                 (h0\<lparr>Host_Name := name,
                     Host_Id := (if name = ''localhost'' then localhost_id else id_supply w (issued w)),
                     Host_Transport := Some (length (objs w))\<rparr>)
                 (hosts s)\<rparr> \<and>
        w' = w\<lparr>issued := (if name = ''localhost'' then issued w else Suc (issued w)),
               objs := objs w @ [filled]\<rparr>)"
  unfolding load_host_def
  by (auto simp: ObjectIdHex_localhost NewObjectId_def construct_def Let_def
           split: sum.splits option.splits)

lemma load_monitor_Loaded:
  "load_monitor P order pm s w = Loaded (s', w') \<longleftrightarrow>
     (\<exists>proxy host init filled.
        decode_proxy pm = Inr proxy \<and>
        GetHostByName order s (proxy_Host proxy) = Inr host \<and>
        GetAgents P (proxy_AgentID proxy) = Some init \<and>
        decode_Agent pm init = Inr filled \<and>
        s' = s\<lparr>monitors :=
               AList.update (id_supply w (issued w))
                 \<lparr>Monitor_Id = id_supply w (issued w), Monitor_HostId = Host_Id host,
                  Monitor_Interval = Second * 10,
                  Monitor_Job = \<lparr>Job_Agent = Some (length (objs w))\<rparr>\<rparr>
                 (monitors s)\<rparr> \<and>
        w' = w\<lparr>issued := Suc (issued w), objs := objs w @ [filled]\<rparr>)"
  unfolding load_monitor_def
  by (auto simp: NewObjectId_def construct_def Let_def
           split: sum.splits option.splits)

section \<open>Association lists and identifiers\<close>

lemma list_all_update:
  "list_all Q al \<Longrightarrow> Q (k, v) \<Longrightarrow> list_all Q (AList.update k v al)"
  by (induction al) auto

lemma list_all_delete: "list_all Q al \<Longrightarrow> list_all Q (AList.delete k al)"
  by (simp add: AList.delete_eq list_all_iff)

lemma length_update:
  "length (AList.update k v al) = (if k \<in> fst ` set al then length al else Suc (length al))"
  by (induction al) auto

lemma length_delete:
  "distinct (map fst al) \<Longrightarrow> map_of al k = Some v \<Longrightarrow> Suc (length (AList.delete k al)) = length al"
proof (induction al)
  case Nil
  then show ?case by simp
next
  case (Cons p al)
  show ?case
  proof (cases "fst p = k")
    case True
    with Cons.prems have "k \<notin> fst ` set al" by auto
    then have "AList.delete k al = al" by (rule AList.delete_id)
    with True show ?thesis by (cases p) simp
  next
    case False
    with Cons show ?thesis by (cases p) auto
  qed
qed

lemma GetHost_wellformed_id:
  "ObjectIdHex id' = Returns k \<Longrightarrow>
   GetHost s id' =
     Returns (case map_of (hosts s) k of None \<Rightarrow> Inl ErrorInvalidId | Some host \<Rightarrow> Inr host)"
  by (simp add: GetHost_def split: option.splits)

lemma DeleteHost_absent:
  "ObjectIdHex id' = Returns k \<Longrightarrow> map_of (hosts s) k = None \<Longrightarrow>
   DeleteHost s id' = Returns (Some ErrHostNotFound, s)"
  by (simp add: DeleteHost_def)

lemma DeleteHost_present:
  "ObjectIdHex id' = Returns k \<Longrightarrow> map_of (hosts s) k = Some host \<Longrightarrow>
   DeleteHost s id' =
     Returns (None,
       s\<lparr>hosts := AList.delete k (hosts s),
         changes := changes s @
           [\<lparr>ev_name = ''hostdelete'', ev_data = HostPayload host,
             seen_hosts = AList.delete k (hosts s), seen_monitors = monitors s\<rparr>]\<rparr>)"
  by (simp add: DeleteHost_def Broadcast_def Let_def)

lemma ObjectIdHex_Returns_iff:
  "ObjectIdHex x = Returns k \<longleftrightarrow> DecodeString x = Some k \<and> length k = 12"
  by (auto simp: ObjectIdHex_def split: option.splits)

lemma DecodeString_length: "DecodeString x = Some d \<Longrightarrow> length x = 2 * length d"
  by (induction x arbitrary: d rule: DecodeString.induct) (auto split: option.splits)

lemma DecodeString_hex: "DecodeString x = Some d \<Longrightarrow> list_all (\<lambda>c. fromHexChar c \<noteq> None) x"
  by (induction x arbitrary: d rule: DecodeString.induct) (auto split: option.splits)

lemma DecodeString_total:
  "even (length x) \<Longrightarrow> list_all (\<lambda>c. fromHexChar c \<noteq> None) x \<Longrightarrow> \<exists>d. DecodeString x = Some d"
proof (induction x rule: DecodeString.induct)
  case 1
  then show ?case by simp
next
  case (2 c)
  then show ?case by simp
next
  case (3 a b rest)
  from "3.prems" obtain hi lo where hl: "fromHexChar a = Some hi" "fromHexChar b = Some lo"
    by auto
  from "3.prems" have "even (length rest)" "list_all (\<lambda>c. fromHexChar c \<noteq> None) rest"
    by auto
  with "3.IH" [OF hl] obtain d where "DecodeString rest = Some d" by blast
  with hl show ?case by simp
qed

lemma ObjectIdHex_Returns_wellformed:
  "(\<exists>k. ObjectIdHex x = Returns k) \<longleftrightarrow> length x = 24 \<and> list_all (\<lambda>c. fromHexChar c \<noteq> None) x"
proof
  assume "\<exists>k. ObjectIdHex x = Returns k"
  then obtain k where "DecodeString x = Some k" "length k = 12"
    by (auto simp: ObjectIdHex_Returns_iff)
  then show "length x = 24 \<and> list_all (\<lambda>c. fromHexChar c \<noteq> None) x"
    using DecodeString_length [of x k] DecodeString_hex [of x k] by simp
next
  assume a: "length x = 24 \<and> list_all (\<lambda>c. fromHexChar c \<noteq> None) x"
  then obtain d where d: "DecodeString x = Some d"
    using DecodeString_total [of x] by auto
  with a have "length d = 12" using DecodeString_length [of x d] by simp
  with d show "\<exists>k. ObjectIdHex x = Returns k" by (simp add: ObjectIdHex_Returns_iff)
qed

section \<open>What the loader and the calls preserve\<close>

lemma later_refl: "later w w"
  by (simp add: later_def)

lemma later_trans: "later w w' \<Longrightarrow> later w' w'' \<Longrightarrow> later w w''"
  by (auto simp: later_def)

lemma set_issued_ids: "set (issued_ids n w) = id_supply w ` {n..<issued w}"
  by (simp add: issued_ids_def)

lemma issued_ids_later:
  "later w w' \<Longrightarrow> set (issued_ids n w) \<subseteq> set (issued_ids n w')"
  by (auto simp: set_issued_ids later_def)

lemma host_keys_issued_later:
  "host_keys_issued n (s, w) \<Longrightarrow> later w w' \<Longrightarrow> host_keys_issued n (s, w')"
  using issued_ids_later [of w w' n]
  by (auto simp: host_keys_issued_def list_all_iff later_def)

lemma host_keys_issued_hosts:
  "host_keys_issued n (s, w) \<Longrightarrow> hosts s' = hosts s \<Longrightarrow> host_keys_issued n (s', w)"
  by (simp add: host_keys_issued_def)

subsection \<open>One operation at a time\<close>

lemma load_host_later: "load_host P entry s w = Loaded (s', w') \<Longrightarrow> later w w'"
  by (cases entry) (auto simp: load_host_Loaded later_def)

lemma load_host_keys_consistent:
  "load_host P entry s w = Loaded (s', w') \<Longrightarrow> keys_consistent s \<Longrightarrow> keys_consistent s'"
  by (cases entry) (auto simp: load_host_Loaded keys_consistent_def intro!: list_all_update)

lemma load_host_keys_issued:
  assumes "load_host P entry s w = Loaded (s', w')" and "host_keys_issued n (s, w)"
  shows "host_keys_issued n (s', w')"
proof -
  obtain name ph where entry: "entry = (name, ph)" by (cases entry)
  have l: "later w w'" using assms(1) by (rule load_host_later)
  with assms(2) have old: "host_keys_issued n (s, w')" by (rule host_keys_issued_later)
  have n: "n \<le> issued w" using assms(2) by (simp add: host_keys_issued_def)
  from assms(1) entry obtain v where
    s': "hosts s' =
           AList.update (if name = ''localhost'' then localhost_id else id_supply w (issued w)) v (hosts s)"
    and w': "issued w' = (if name = ''localhost'' then issued w else Suc (issued w))"
            "id_supply w' = id_supply w"
    by (auto simp: load_host_Loaded)
  have "name \<noteq> ''localhost'' \<Longrightarrow> id_supply w (issued w) \<in> set (issued_ids n w')"
    using n w' by (auto simp: set_issued_ids)
  with old s' show ?thesis
    by (auto simp: host_keys_issued_def intro!: list_all_update)
qed

lemma load_monitor_later: "load_monitor P order pm s w = Loaded (s', w') \<Longrightarrow> later w w'"
  by (auto simp: load_monitor_Loaded later_def)

lemma load_monitor_hosts: "load_monitor P order pm s w = Loaded (s', w') \<Longrightarrow> hosts s' = hosts s"
  by (auto simp: load_monitor_Loaded)

lemma load_monitor_keys_consistent:
  "load_monitor P order pm s w = Loaded (s', w') \<Longrightarrow> keys_consistent s \<Longrightarrow> keys_consistent s'"
  by (auto simp: load_monitor_Loaded keys_consistent_def intro!: list_all_update)

lemma load_monitor_keys_issued:
  "load_monitor P order pm s w = Loaded (s', w') \<Longrightarrow> host_keys_issued n (s, w) \<Longrightarrow>
   host_keys_issued n (s', w')"
  using host_keys_issued_later [OF _ load_monitor_later]
    host_keys_issued_hosts [OF _ load_monitor_hosts]
  by blast

subsection \<open>The two loops and the constructor\<close>

lemma load_hosts_later: "load_hosts P entries s w = Loaded (s', w') \<Longrightarrow> later w w'"
proof (induction entries arbitrary: s w)
  case Nil
  then show ?case by (simp add: later_refl)
next
  case (Cons entry rest)
  then show ?case
    by (auto split: load.splits dest: load_host_later intro: later_trans)
qed

lemma load_hosts_keys_consistent:
  "load_hosts P entries s w = Loaded (s', w') \<Longrightarrow> keys_consistent s \<Longrightarrow> keys_consistent s'"
proof (induction entries arbitrary: s w)
  case Nil
  then show ?case by simp
next
  case (Cons entry rest)
  then show ?case
    by (auto split: load.splits dest: load_host_keys_consistent)
qed

lemma load_hosts_keys_issued:
  "load_hosts P entries s w = Loaded (s', w') \<Longrightarrow> host_keys_issued n (s, w) \<Longrightarrow>
   host_keys_issued n (s', w')"
proof (induction entries arbitrary: s w)
  case Nil
  then show ?case by simp
next
  case (Cons entry rest)
  then show ?case
    by (auto split: load.splits dest: load_host_keys_issued)
qed

lemma load_monitors_later: "load_monitors P order pms s w = Loaded (s', w') \<Longrightarrow> later w w'"
proof (induction pms arbitrary: s w)
  case Nil
  then show ?case by (simp add: later_refl)
next
  case (Cons pm rest)
  then show ?case
    by (auto split: load.splits dest: load_monitor_later intro: later_trans)
qed

lemma load_monitors_hosts:
  "load_monitors P order pms s w = Loaded (s', w') \<Longrightarrow> hosts s' = hosts s"
proof (induction pms arbitrary: s w)
  case Nil
  then show ?case by simp
next
  case (Cons pm rest)
  then show ?case
    by (auto split: load.splits dest: load_monitor_hosts)
qed

lemma load_monitors_keys_consistent:
  "load_monitors P order pms s w = Loaded (s', w') \<Longrightarrow> keys_consistent s \<Longrightarrow> keys_consistent s'"
proof (induction pms arbitrary: s w)
  case Nil
  then show ?case by simp
next
  case (Cons pm rest)
  then show ?case
    by (auto split: load.splits dest: load_monitor_keys_consistent)
qed

lemma NewConfigurationStore_Loaded:
  "NewConfigurationStore P order w config changes0 = Loaded (s, w') \<longleftrightarrow>
     (\<exists>s1 w1.
        load_hosts P (AllHosts config) \<lparr>changes = changes0, hosts = [], monitors = []\<rparr> w =
          Loaded (s1, w1) \<and>
        load_monitors P order (AllMonitors config) s1 w1 = Loaded (s, w'))"
  by (auto simp: NewConfigurationStore_def Let_def split: load.splits)

lemma NewConfigurationStore_later:
  "NewConfigurationStore P order w config changes0 = Loaded (s, w') \<Longrightarrow> later w w'"
  by (auto simp: NewConfigurationStore_Loaded dest: load_hosts_later load_monitors_later
           intro: later_trans)

lemma NewConfigurationStore_keys_consistent:
  "NewConfigurationStore P order w config changes0 = Loaded (s, w') \<Longrightarrow> keys_consistent s"
proof -
  assume "NewConfigurationStore P order w config changes0 = Loaded (s, w')"
  then obtain s1 w1 where
    h: "load_hosts P (AllHosts config) \<lparr>changes = changes0, hosts = [], monitors = []\<rparr> w =
          Loaded (s1, w1)"
    and m: "load_monitors P order (AllMonitors config) s1 w1 = Loaded (s, w')"
    by (auto simp: NewConfigurationStore_Loaded)
  have "keys_consistent \<lparr>changes = changes0, hosts = [], monitors = []\<rparr>"
    by (simp add: keys_consistent_def)
  with h have "keys_consistent s1" by (rule load_hosts_keys_consistent)
  with m show "keys_consistent s" by (rule load_monitors_keys_consistent)
qed

lemma NewConfigurationStore_keys_issued:
  "NewConfigurationStore P order w config changes0 = Loaded (s, w') \<Longrightarrow>
   host_keys_issued (issued w) (s, w')"
proof -
  assume "NewConfigurationStore P order w config changes0 = Loaded (s, w')"
  then obtain s1 w1 where
    h: "load_hosts P (AllHosts config) \<lparr>changes = changes0, hosts = [], monitors = []\<rparr> w =
          Loaded (s1, w1)"
    and m: "load_monitors P order (AllMonitors config) s1 w1 = Loaded (s, w')"
    by (auto simp: NewConfigurationStore_Loaded)
  have "host_keys_issued (issued w) (\<lparr>changes = changes0, hosts = [], monitors = []\<rparr>, w)"
    by (simp add: host_keys_issued_def)
  with h have "host_keys_issued (issued w) (s1, w1)" by (rule load_hosts_keys_issued)
  then have "host_keys_issued (issued w) (s1, w')"
    using load_monitors_later [OF m] by (rule host_keys_issued_later)
  then show ?thesis
    using load_monitors_hosts [OF m] by (rule host_keys_issued_hosts)
qed

subsection \<open>Calls on the loaded store\<close>

lemma perform_keys_consistent:
  "perform c (s, w) = Returns (s', w') \<Longrightarrow> keys_consistent s \<Longrightarrow> keys_consistent s'"
  by (cases c)
     (auto simp: keys_consistent_def AddHost_def AddMonitor_def UpdateMonitor_def
                 DeleteHost_def DeleteMonitor_def Broadcast_def NewObjectId_def Let_def
           split: outcome.splits option.splits
           intro!: list_all_update list_all_delete)

lemma perform_later: "perform c (s, w) = Returns (s', w') \<Longrightarrow> later w w'"
  by (cases c)
     (auto simp: later_def AddHost_def AddMonitor_def UpdateMonitor_def
                 DeleteHost_def DeleteMonitor_def NewObjectId_def Let_def
           split: outcome.splits option.splits)

lemma perform_keys_issued:
  assumes "perform c (s, w) = Returns (s', w')" and "host_keys_issued n (s, w)"
  shows "host_keys_issued n (s', w')"
proof -
  have old: "host_keys_issued n (s, w')"
    using assms(2) perform_later [OF assms(1)] by (rule host_keys_issued_later)
  have n: "n \<le> issued w" using assms(2) by (simp add: host_keys_issued_def)
  show ?thesis
  proof (cases c)
    case (Call_AddHost host)
    with assms(1) have "issued w' = Suc (issued w)" "id_supply w' = id_supply w"
      and h: "hosts s' = AList.update (id_supply w (issued w)) (host\<lparr>Host_Id := id_supply w (issued w)\<rparr>) (hosts s)"
      by (auto simp: AddHost_def NewObjectId_def Broadcast_def Let_def)
    then have "id_supply w (issued w) \<in> set (issued_ids n w')"
      using n by (auto simp: set_issued_ids)
    with old h show ?thesis
      by (auto simp: host_keys_issued_def intro!: list_all_update)
  next
    case (Call_DeleteHost x)
    with assms(1) old show ?thesis
      by (auto simp: host_keys_issued_def DeleteHost_def Broadcast_def Let_def
               split: outcome.splits option.splits intro!: list_all_delete)
  next
    case (Call_AddMonitor mon)
    with assms(1) have "hosts s' = hosts s"
      by (auto simp: AddMonitor_def NewObjectId_def Broadcast_def Let_def)
    with old show ?thesis by (rule host_keys_issued_hosts)
  next
    case (Call_UpdateMonitor mon)
    with assms(1) have "hosts s' = hosts s"
      by (auto simp: UpdateMonitor_def Broadcast_def Let_def)
    with old show ?thesis by (rule host_keys_issued_hosts)
  next
    case (Call_DeleteMonitor x)
    with assms(1) have "hosts s' = hosts s"
      by (auto simp: DeleteMonitor_def Broadcast_def Let_def split: outcome.splits option.splits)
    with old show ?thesis by (rule host_keys_issued_hosts)
  qed
qed

lemma perform_all_keys_consistent:
  "perform_all cs (s, w) = Returns (s', w') \<Longrightarrow> keys_consistent s \<Longrightarrow> keys_consistent s'"
proof (induction cs arbitrary: s w)
  case Nil
  then show ?case by simp
next
  case (Cons c cs)
  then show ?case
    by (auto split: outcome.splits dest: perform_keys_consistent)
qed

lemma perform_all_later: "perform_all cs (s, w) = Returns (s', w') \<Longrightarrow> later w w'"
proof (induction cs arbitrary: s w)
  case Nil
  then show ?case by (simp add: later_refl)
next
  case (Cons c cs)
  then show ?case
    by (auto split: outcome.splits dest: perform_later intro: later_trans)
qed

lemma perform_all_keys_issued:
  "perform_all cs (s, w) = Returns (s', w') \<Longrightarrow> host_keys_issued n (s, w) \<Longrightarrow>
   host_keys_issued n (s', w')"
proof (induction cs arbitrary: s w)
  case Nil
  then show ?case by simp
next
  case (Cons c cs)
  then show ?case
    by (auto split: outcome.splits dest: perform_keys_issued)
qed

section \<open>A generator without collisions\<close>

lemma collision_free_fresh:
  assumes "collision_free n w'" and "issued w' = Suc m" and "n \<le> m"
  shows "id_supply w' m \<noteq> localhost_id"
    and "id_supply w' m \<notin> id_supply w' ` {n..<m}"
proof -
  have up: "[n..<Suc m] = [n..<m] @ [m]" using assms(3) by simp
  from assms(1,2) have d: "distinct (map (id_supply w') [n..<Suc m])"
    and z: "localhost_id \<notin> set (map (id_supply w') [n..<Suc m])"
    by (simp_all add: collision_free_def issued_ids_def)
  from z show "id_supply w' m \<noteq> localhost_id" unfolding up by auto
  from d show "id_supply w' m \<notin> id_supply w' ` {n..<m}" unfolding up by auto
qed

section \<open>The identifiers the loader assigns\<close>

lemma update_fresh: "k \<notin> fst ` set al \<Longrightarrow> AList.update k v al = al @ [(k, v)]"
  by (induction al) auto

lemma collision_free_inj:
  "collision_free n w \<Longrightarrow>
   inj_on (id_supply w) {n..<issued w} \<and> localhost_id \<notin> id_supply w ` {n..<issued w}"
  by (simp add: collision_free_def issued_ids_def distinct_map)

lemma host_id_rule_later: "host_id_rule n w e \<Longrightarrow> later w w' \<Longrightarrow> host_id_rule n w' e"
  using issued_ids_later [of w w' n]
  by (cases e) (auto simp: host_id_rule_def split: if_splits)

lemma list_all_host_id_rule_later:
  "list_all (host_id_rule n w) al \<Longrightarrow> later w w' \<Longrightarrow> list_all (host_id_rule n w') al"
  by (auto simp: list_all_iff intro: host_id_rule_later)

lemma load_host_fresh_key:
  assumes step: "load_host P (name, ph) s w = Loaded (s1, w1)"
    and rule: "list_all (host_id_rule n w) (hosts s)"
    and n: "n \<le> issued w"
    and nm: "name \<notin> set (map (Host_Name \<circ> snd) (hosts s))"
    and l: "later w1 w_end"
    and free: "collision_free n w_end"
  shows "\<exists>h. hosts s1 = hosts s @ [(Host_Id h, h)] \<and> Host_Name h = name \<and>
             host_id_rule n w1 (Host_Id h, h) \<and> Host_Id h \<notin> fst ` set (hosts s)"
proof -
  define key where "key = (if name = ''localhost'' then localhost_id else id_supply w (issued w))"
  from step obtain h where
    s1: "hosts s1 = AList.update key h (hosts s)"
    and h: "Host_Id h = key" "Host_Name h = name"
    and w1: "issued w1 = (if name = ''localhost'' then issued w else Suc (issued w))"
            "id_supply w1 = id_supply w"
    by (auto simp: load_host_Loaded key_def)
  from l w1 have w_end: "id_supply w_end = id_supply w" "issued w1 \<le> issued w_end"
    by (simp_all add: later_def)
  from collision_free_inj [OF free]
  have inj: "inj_on (id_supply w) {n..<issued w_end}"
    and nz: "localhost_id \<notin> id_supply w ` {n..<issued w_end}"
    by (simp_all add: w_end)
  have fresh: "key \<notin> fst ` set (hosts s)"
  proof
    assume "key \<in> fst ` set (hosts s)"
    then obtain h' where in_s: "(key, h') \<in> set (hosts s)" by auto
    with rule have r: "host_id_rule n w (key, h')" by (auto simp: list_all_iff)
    from in_s nm have other: "Host_Name h' \<noteq> name" by force
    show False
    proof (cases "name = ''localhost''")
      case True
      with other r have "key \<in> id_supply w ` {n..<issued w}"
        by (simp add: host_id_rule_def set_issued_ids)
      moreover have "key = localhost_id" using True by (simp add: key_def)
      moreover have "{n..<issued w} \<subseteq> {n..<issued w_end}"
        using w1 w_end by (auto split: if_splits)
      ultimately show False using nz by auto
    next
      case False
      then have key: "key = id_supply w (issued w)" by (simp add: key_def)
      have cur: "issued w \<in> {n..<issued w_end}"
        using False n w1 w_end by (auto split: if_splits)
      show False
      proof (cases "Host_Name h' = ''localhost''")
        case True
        with r have "key = localhost_id" by (simp add: host_id_rule_def)
        with key cur nz show False by (metis imageI)
      next
        case False
        with r obtain i where i: "i \<in> {n..<issued w}" "key = id_supply w i"
          by (auto simp: host_id_rule_def set_issued_ids)
        then have "i \<in> {n..<issued w_end}" using cur by auto
        with inj cur i key have "i = issued w" by (auto dest: inj_onD)
        with i show False by simp
      qed
    qed
  qed
  have "host_id_rule n w1 (Host_Id h, h)"
    using h n w1 by (auto simp: host_id_rule_def key_def set_issued_ids)
  with s1 h fresh show ?thesis by (auto simp: update_fresh)
qed

lemma load_hosts_ids:
  assumes "load_hosts P entries s w = Loaded (s', w')"
    and "list_all (host_id_rule n w) (hosts s)"
    and "n \<le> issued w"
    and "distinct (map (Host_Name \<circ> snd) (hosts s) @ map fst entries)"
    and "later w' w_end"
    and "collision_free n w_end"
    and "distinct (map fst (hosts s))"
  shows "list_all (host_id_rule n w') (hosts s') \<and>
         map (Host_Name \<circ> snd) (hosts s') = map (Host_Name \<circ> snd) (hosts s) @ map fst entries \<and>
         distinct (map fst (hosts s'))"
  using assms
proof (induction entries arbitrary: s w)
  case Nil
  then show ?case by simp
next
  case (Cons entry rest)
  obtain name ph where entry: "entry = (name, ph)" by (cases entry)
  from Cons.prems(1) obtain s1 w1 where
    step: "load_host P (name, ph) s w = Loaded (s1, w1)"
    and rest: "load_hosts P rest s1 w1 = Loaded (s', w')"
    by (auto simp: entry split: load.splits)
  have l1: "later w w1" using step by (rule load_host_later)
  have l2: "later w1 w'" using rest by (rule load_hosts_later)
  have l3: "later w1 w_end" using l2 Cons.prems(5) by (rule later_trans)
  have nm: "name \<notin> set (map (Host_Name \<circ> snd) (hosts s))"
    using Cons.prems(4) by (auto simp: entry)
  from load_host_fresh_key [OF step Cons.prems(2,3) nm l3 Cons.prems(6)]
  obtain h where
    s1: "hosts s1 = hosts s @ [(Host_Id h, h)]" and h: "Host_Name h = name"
    and r: "host_id_rule n w1 (Host_Id h, h)"
    and f: "Host_Id h \<notin> fst ` set (hosts s)"
    by blast
  have rule1: "list_all (host_id_rule n w1) (hosts s1)"
    using list_all_host_id_rule_later [OF Cons.prems(2) l1] r s1 by simp
  have n1: "n \<le> issued w1" using Cons.prems(3) l1 by (simp add: later_def)
  have d1: "distinct (map (Host_Name \<circ> snd) (hosts s1) @ map fst rest)"
    using Cons.prems(4) by (simp add: entry s1 h comp_def)
  have k1: "distinct (map fst (hosts s1))"
    using Cons.prems(7) s1 f by auto
  from Cons.IH [OF rest rule1 n1 d1 Cons.prems(5,6) k1] s1 h show ?case
    by (simp add: entry)
qed

lemma host_id_rule_keys:
  "list_all (host_id_rule n w) al \<Longrightarrow> map (Host_Id \<circ> snd) al = map fst al"
  by (induction al) (auto simp: host_id_rule_def)

section \<open>The interval of loaded monitors\<close>

lemma load_hosts_monitors:
  "load_hosts P entries s w = Loaded (s', w') \<Longrightarrow> monitors s' = monitors s"
proof (induction entries arbitrary: s w)
  case Nil
  then show ?case by simp
next
  case (Cons entry rest)
  obtain name ph where "entry = (name, ph)" by (cases entry)
  with Cons show ?case
    by (auto split: load.splits simp: load_host_Loaded)
qed

lemma load_monitor_interval:
  "load_monitor P order pm s w = Loaded (s', w') \<Longrightarrow>
   list_all (\<lambda>(k, mon). Monitor_Interval mon = 10 * Second) (monitors s) \<Longrightarrow>
   list_all (\<lambda>(k, mon). Monitor_Interval mon = 10 * Second) (monitors s')"
  by (auto simp: load_monitor_Loaded intro!: list_all_update)

lemma load_monitors_interval:
  "load_monitors P order pms s w = Loaded (s', w') \<Longrightarrow>
   list_all (\<lambda>(k, mon). Monitor_Interval mon = 10 * Second) (monitors s) \<Longrightarrow>
   list_all (\<lambda>(k, mon). Monitor_Interval mon = 10 * Second) (monitors s')"
proof (induction pms arbitrary: s w)
  case Nil
  then show ?case by simp
next
  case (Cons pm rest)
  then show ?case
    by (auto split: load.splits dest: load_monitor_interval)
qed

lemma load_monitor_raw_interval:
  "load_monitor P order (pm\<lparr>raw_interval := i\<rparr>) s w = load_monitor P order pm s w"
  by (simp add: load_monitor_def Let_def split: sum.splits option.splits prod.splits)

lemma load_monitors_raw_interval:
  "load_monitors P order (map (\<lambda>pm. pm\<lparr>raw_interval := f pm\<rparr>) pms) s w =
   load_monitors P order pms s w"
  by (induction pms arbitrary: s w) (auto simp: load_monitor_raw_interval split: load.splits)

section \<open>A host record with an unregistered transport\<close>

lemma load_host_unknown_transport:
  assumes "decode_Host ph = Inr host0" and "GetTransports P (Host_TransportId host0) = None"
  shows "load_host P (name, ph) s w =
           Failed (Errorf (''unknown transport '' @ quoted (Host_TransportId host0)))"
  using assms
  by (simp add: load_host_def ObjectIdHex_localhost NewObjectId_def Let_def)

lemma host_record_ok_Loaded:
  "host_record_ok P entry \<Longrightarrow> \<exists>s1 w1. load_host P entry s w = Loaded (s1, w1)"
proof -
  assume ok: "host_record_ok P entry"
  obtain name ph where entry: "entry = (name, ph)" by (cases entry)
  from ok obtain host0 where h: "decode_Host ph = Inr host0"
    by (cases "decode_Host ph") (auto simp: host_record_ok_def entry)
  from ok h obtain init where i: "GetTransports P (Host_TransportId host0) = Some init"
    by (cases "GetTransports P (Host_TransportId host0)") (auto simp: host_record_ok_def entry)
  from ok h i obtain filled where "decode_Transport ph init = Inr filled"
    by (cases "decode_Transport ph init") (auto simp: host_record_ok_def entry)
  with h i show ?thesis by (simp add: entry load_host_Loaded)
qed

lemma load_hosts_unknown_transport_not_Loaded:
  assumes "decode_Host ph = Inr host0" and "GetTransports P (Host_TransportId host0) = None"
  shows "load_hosts P (pre @ (name, ph) # post) s w \<noteq> Loaded st"
proof (induction pre arbitrary: s w)
  case Nil
  show ?case by (simp add: load_host_unknown_transport [OF assms])
next
  case (Cons entry pre)
  then show ?case by (auto split: load.splits)
qed

lemma load_hosts_unknown_transport_first:
  assumes "decode_Host ph = Inr host0" and "GetTransports P (Host_TransportId host0) = None"
    and "list_all (host_record_ok P) pre"
  shows "load_hosts P (pre @ (name, ph) # post) s w =
           Failed (Errorf (''unknown transport '' @ quoted (Host_TransportId host0)))"
  using assms(3)
proof (induction pre arbitrary: s w)
  case Nil
  show ?case by (simp add: load_host_unknown_transport [OF assms(1,2)])
next
  case (Cons entry pre)
  from Cons.prems have "host_record_ok P entry" by simp
  then obtain s1 w1 where "load_host P entry s w = Loaded (s1, w1)"
    using host_record_ok_Loaded by blast
  with Cons show ?case by simp
qed

lemma load_host_decode_error:
  "decode_Host ph = Inl err \<Longrightarrow> load_host P (name, ph) s w = Failed (DecodeError err)"
  by (simp add: load_host_def)

lemma load_host_transport_panic:
  assumes "decode_Host ph = Inr host0"
    and "GetTransports P (Host_TransportId host0) = Some init"
    and "decode_Transport ph init = Inl err"
  shows "load_host P (name, ph) s w = Aborted (PanicMsg err)"
  using assms
  by (simp add: load_host_def ObjectIdHex_localhost NewObjectId_def construct_def Let_def)

lemma load_hosts_stops_at:
  assumes "list_all (host_record_ok P) pre"
    and "\<And>s w. load_host P entry s w = Failed err"
  shows "load_hosts P (pre @ entry # post) s w = Failed err"
  using assms(1)
proof (induction pre arbitrary: s w)
  case Nil
  show ?case by (simp add: assms(2))
next
  case (Cons e pre)
  from Cons.prems have "host_record_ok P e" by simp
  then obtain s1 w1 where "load_host P e s w = Loaded (s1, w1)"
    using host_record_ok_Loaded by blast
  with Cons show ?case by simp
qed

lemma load_hosts_aborts_at:
  assumes "list_all (host_record_ok P) pre"
    and "\<And>s w. load_host P entry s w = Aborted p"
  shows "load_hosts P (pre @ entry # post) s w = Aborted p"
  using assms(1)
proof (induction pre arbitrary: s w)
  case Nil
  show ?case by (simp add: assms(2))
next
  case (Cons e pre)
  from Cons.prems have "host_record_ok P e" by simp
  then obtain s1 w1 where "load_host P e s w = Loaded (s1, w1)"
    using host_record_ok_Loaded by blast
  with Cons show ?case by simp
qed

lemma NewConfigurationStore_hosts_Failed:
  "load_hosts P (AllHosts config) \<lparr>changes = changes0, hosts = [], monitors = []\<rparr> w = Failed err \<Longrightarrow>
   NewConfigurationStore P order w config changes0 = Failed err"
  by (simp add: NewConfigurationStore_def)

lemma NewConfigurationStore_hosts_Aborted:
  "load_hosts P (AllHosts config) \<lparr>changes = changes0, hosts = [], monitors = []\<rparr> w = Aborted p \<Longrightarrow>
   NewConfigurationStore P order w config changes0 = Aborted p"
  by (simp add: NewConfigurationStore_def)

text \<open>The earliest record that fails, and the three ways a record fails.\<close>

lemma first_failing_record:
  "\<not> list_all (host_record_ok P) entries \<Longrightarrow>
   \<exists>pre1 name1 ph1 pre2.
     entries = pre1 @ (name1, ph1) # pre2 \<and> list_all (host_record_ok P) pre1 \<and>
     \<not> host_record_ok P (name1, ph1)"
proof -
  assume "\<not> list_all (host_record_ok P) entries"
  then have "\<exists>e \<in> set entries. \<not> host_record_ok P e" by (simp add: list_all_iff)
  then obtain pre1 e pre2 where
    "entries = pre1 @ e # pre2" "\<not> host_record_ok P e" "\<forall>x \<in> set pre1. \<not> \<not> host_record_ok P x"
    using split_list_first_prop [of entries "\<lambda>e. \<not> host_record_ok P e"] by blast
  then show ?thesis by (cases e) (auto simp: list_all_iff)
qed

lemma host_record_not_ok:
  "\<not> host_record_ok P (name1, ph1) \<longleftrightarrow>
     (\<exists>err. decode_Host ph1 = Inl err) \<or>
     (\<exists>h. decode_Host ph1 = Inr h \<and> GetTransports P (Host_TransportId h) = None) \<or>
     (\<exists>h init err. decode_Host ph1 = Inr h \<and> GetTransports P (Host_TransportId h) = Some init \<and>
                    decode_Transport ph1 init = Inl err)"
  by (auto simp: host_record_ok_def split: sum.splits option.splits)

section \<open>Looking a host up by name\<close>












section \<open>Writing into a plugin instance\<close>



section \<open>The claims\<close>

subsection \<open>UpdateMonitor\<close>

text \<open>
  Claim C8. For every store and every monitor value, \<^verbatim>\<open>UpdateMonitor\<close> returns no error.
  It stores the monitor under the monitor's own identifier: the lookup of every other
  identifier is as before, an entry already under that identifier is replaced (the
  collection keeps its size) and otherwise a new entry is inserted (the collection grows
  by one). The hosts are untouched, and exactly one event is added to the broadcaster,
  \<open>monchange\<close> with the monitor, sent when the collection already holds it.
\<close>

theorem UpdateMonitor_upsert:
  "fst (UpdateMonitor s mon) = None \<and>
   map_of (monitors (snd (UpdateMonitor s mon))) = (map_of (monitors s))(Monitor_Id mon \<mapsto> mon) \<and>
   length (monitors (snd (UpdateMonitor s mon))) =
     (if Monitor_Id mon \<in> fst ` set (monitors s) then length (monitors s)
      else Suc (length (monitors s))) \<and>
   hosts (snd (UpdateMonitor s mon)) = hosts s \<and>
   changes (snd (UpdateMonitor s mon)) =
     changes s @
       [\<lparr>ev_name = ''monchange'', ev_data = MonitorPayload mon, seen_hosts = hosts s,
         seen_monitors = monitors (snd (UpdateMonitor s mon))\<rparr>]"
  by (simp add: UpdateMonitor_def Broadcast_def Let_def update_conv' length_update)

subsection \<open>GetHost and DeleteHost on a string that is not an identifier\<close>

text \<open>
  Claim C3. \<^verbatim>\<open>GetHost\<close> is to answer a malformed identifier with \<^verbatim>\<open>ErrorInvalidId\<close>.
  It passes the string to \<^verbatim>\<open>bson.ObjectIdHex\<close> without checking it first, so on a
  string that is not 24 hexadecimal digits, here a host name, the call panics instead
  of returning an error.
\<close>

theorem GetHost_malformed_id: "GetHost s ''localhost'' = Panics (BadObjectIdHex ''localhost'')"
  by (simp add: GetHost_def ObjectIdHex_def fromHexChar_def)

text \<open>
  Claim C5. \<^verbatim>\<open>DeleteHost\<close> is to answer every identifier that is not in the hosts
  collection with \<^verbatim>\<open>ErrHostNotFound\<close>. As in \<^verbatim>\<open>GetHost\<close>, a string that is not 24
  hexadecimal digits makes \<^verbatim>\<open>bson.ObjectIdHex\<close> panic before the collection is looked at.
\<close>

theorem DeleteHost_malformed_id: "DeleteHost s ''web'' = Panics (BadObjectIdHex ''web'')"
  by (simp add: DeleteHost_def ObjectIdHex_def fromHexChar_def)

subsection \<open>The identifiers of loaded hosts\<close>

text \<open>
  Claim C1. When the constructor returns a store, the hosts of the store are the records
  of the hosts section, one host per record and under the record's name. Each is stored
  under its own identifier; a host named \<open>localhost\<close> has the reserved identifier of
  twelve zero bytes, and every other host has an identifier the generator handed out
  during this load. No two hosts of the store have the same identifier. The names of the
  hosts section are the keys of a Go map, hence distinct; the generator is taken to have
  handed out no identifier twice and never the reserved one during the load.
\<close>

theorem NewConfigurationStore_host_ids:
  assumes load: "NewConfigurationStore P order w config changes0 = Loaded (s, w')"
    and names: "distinct (map fst (AllHosts config))"
    and free: "collision_free (issued w) w'"
  shows "list_all (host_id_rule (issued w) w') (hosts s) \<and>
         map (Host_Name \<circ> snd) (hosts s) = map fst (AllHosts config) \<and>
         distinct (map (Host_Id \<circ> snd) (hosts s))"
proof -
  from load obtain s1 w1 where
    h: "load_hosts P (AllHosts config) \<lparr>changes = changes0, hosts = [], monitors = []\<rparr> w =
          Loaded (s1, w1)"
    and m: "load_monitors P order (AllMonitors config) s1 w1 = Loaded (s, w')"
    by (auto simp: NewConfigurationStore_Loaded)
  have l: "later w1 w'" using m by (rule load_monitors_later)
  have same: "hosts s = hosts s1" using m by (rule load_monitors_hosts)
  have "list_all (host_id_rule (issued w) w1) (hosts s1) \<and>
        map (Host_Name \<circ> snd) (hosts s1) =
          map (Host_Name \<circ> snd)
            (hosts \<lparr>changes = changes0, hosts = [], monitors = []\<rparr>) @ map fst (AllHosts config) \<and>
        distinct (map fst (hosts s1))"
    by (rule load_hosts_ids [OF h _ _ _ l free]) (simp_all add: names)
  then have r: "list_all (host_id_rule (issued w) w1) (hosts s1)"
    and n: "map (Host_Name \<circ> snd) (hosts s1) = map fst (AllHosts config)"
    and d: "distinct (map fst (hosts s1))"
    by simp_all
  from r l have r': "list_all (host_id_rule (issued w) w') (hosts s1)"
    by (rule list_all_host_id_rule_later)
  with n d show ?thesis by (simp add: same host_id_rule_keys [OF r'])
qed

text \<open>
  The small installation: \<open>localhost\<close> gets the reserved identifier and \<open>web\<close> the first
  generated one.
\<close>

theorem NewConfigurationStore_host_ids_witness:
  "\<exists>s w'.
     NewConfigurationStore ex_plugins ex_order ex_world ex_config [] = Loaded (s, w') \<and>
     distinct (map fst (AllHosts ex_config)) \<and>
     collision_free (issued ex_world) w' \<and>
     list_all (host_id_rule (issued ex_world) w') (hosts s) \<and>
     map (Host_Name \<circ> snd) (hosts s) = [''localhost'', ''web''] \<and>
     map (Host_Id \<circ> snd) (hosts s) = [localhost_id, ''iiiiiiiiiii0''] \<and>
     distinct (map (Host_Id \<circ> snd) (hosts s))"
proof -
  have "case NewConfigurationStore ex_plugins ex_order ex_world ex_config [] of
          Loaded (s, w') \<Rightarrow>
            collision_free (issued ex_world) w' \<and>
            map (Host_Id \<circ> snd) (hosts s) = [localhost_id, ''iiiiiiiiiii0'']
        | Failed err \<Rightarrow> False
        | Aborted p \<Rightarrow> False"
    by code_simp
  then obtain s w' where
    load: "NewConfigurationStore ex_plugins ex_order ex_world ex_config [] = Loaded (s, w')"
    and free: "collision_free (issued ex_world) w'"
    and ids: "map (Host_Id \<circ> snd) (hosts s) = [localhost_id, ''iiiiiiiiiii0'']"
    by (auto split: load.splits)
  have names: "distinct (map fst (AllHosts ex_config))"
    by (simp add: ex_config_def)
  have all: "map fst (AllHosts ex_config) = [''localhost'', ''web'']"
    by (simp add: ex_config_def)
  from NewConfigurationStore_host_ids [OF load names free]
  have "list_all (host_id_rule (issued ex_world) w') (hosts s)"
    "map (Host_Name \<circ> snd) (hosts s) = map fst (AllHosts ex_config)"
    "distinct (map (Host_Id \<circ> snd) (hosts s))"
    by blast+
  with load names free ids all show ?thesis by auto
qed

subsection \<open>Keys and identifiers\<close>

text \<open>
  Claim C10. In every store reached from a successful load by any sequence of
  \<^verbatim>\<open>AddHost\<close>, \<^verbatim>\<open>DeleteHost\<close>, \<^verbatim>\<open>AddMonitor\<close>, \<^verbatim>\<open>UpdateMonitor\<close> and \<^verbatim>\<open>DeleteMonitor\<close>
  calls, every entry of the hosts map is stored under the key equal to its own \<^verbatim>\<open>Id\<close>
  field, and every entry of the monitors map likewise.
\<close>

theorem keys_consistent_reachable:
  assumes "NewConfigurationStore P order w0 config changes0 = Loaded st0"
    and "perform_all cs st0 = Returns (s, w)"
  shows "keys_consistent s"
proof -
  obtain s0 w1 where st0: "st0 = (s0, w1)" by (cases st0)
  with assms(1) have "keys_consistent s0" by (auto dest: NewConfigurationStore_keys_consistent)
  with assms(2) st0 show ?thesis by (auto dest: perform_all_keys_consistent)
qed

text \<open>
  The small installation, loaded and then taken through one call of each kind, ends with
  two hosts and two monitors, each under its own identifier.
\<close>

theorem keys_consistent_reachable_witness:
  "\<exists>st0 s w.
     NewConfigurationStore ex_plugins ex_order ex_world ex_config [] = Loaded st0 \<and>
     perform_all ex_calls st0 = Returns (s, w) \<and>
     length (hosts s) = 2 \<and> length (monitors s) = 2 \<and>
     keys_consistent s"
proof -
  have "case NewConfigurationStore ex_plugins ex_order ex_world ex_config [] of
          Loaded st0 \<Rightarrow>
            (case perform_all ex_calls st0 of
               Returns (s, w) \<Rightarrow> length (hosts s) = 2 \<and> length (monitors s) = 2
             | Panics p \<Rightarrow> False)
        | Failed err \<Rightarrow> False
        | Aborted p \<Rightarrow> False"
    by code_simp
  then obtain st0 s w where
    load: "NewConfigurationStore ex_plugins ex_order ex_world ex_config [] = Loaded st0"
    and run: "perform_all ex_calls st0 = Returns (s, w)"
    and size: "length (hosts s) = 2" "length (monitors s) = 2"
    by (auto split: load.splits outcome.splits)
  from keys_consistent_reachable [OF load run] have "keys_consistent s" .
  with load run size show ?thesis by blast
qed

text \<open>
  Claim C4. On every store reached from a successful load by a sequence of calls,
  \<^verbatim>\<open>AddHost\<close> returns no error and stores the caller's host under the identifier it
  draws from the generator, whatever identifier the caller had filled in. While the
  generator has handed out no identifier twice and never the reserved one since the load
  began, that identifier is the key of no host already in the store, so the
  collection grows by one and no entry is replaced. The monitors are untouched. Exactly
  one event is added to the broadcaster, \<open>hostadd\<close> with the host as stored, and it is
  sent when the collection already holds the host.
\<close>

theorem AddHost_fresh_id:
  assumes load: "NewConfigurationStore P order w0 config changes0 = Loaded st0"
    and run: "perform_all cs st0 = Returns (s, w)"
    and add: "AddHost w s host = (err, host', s', w')"
    and free: "collision_free (issued w0) w'"
  shows "err = None \<and>
         host' = host\<lparr>Host_Id := fst (NewObjectId w)\<rparr> \<and>
         Host_Id host' \<notin> fst ` set (hosts s) \<and>
         map_of (hosts s') = (map_of (hosts s))(Host_Id host' \<mapsto> host') \<and>
         length (hosts s') = Suc (length (hosts s)) \<and>
         monitors s' = monitors s \<and>
         changes s' =
           changes s @
             [\<lparr>ev_name = ''hostadd'', ev_data = HostPayload host', seen_hosts = hosts s',
               seen_monitors = monitors s'\<rparr>]"
proof -
  obtain s0 w1 where st0: "st0 = (s0, w1)" by (cases st0)
  have "host_keys_issued (issued w0) (s0, w1)"
    using load st0 by (auto dest: NewConfigurationStore_keys_issued)
  then have keys: "host_keys_issued (issued w0) (s, w)"
    using run st0 by (auto dest: perform_all_keys_issued)
  define new where "new = id_supply w (issued w)"
  from add have res: "err = None" "host' = host\<lparr>Host_Id := new\<rparr>"
    "s' = Broadcast ''hostadd'' (HostPayload host')
            (s\<lparr>hosts := AList.update new host' (hosts s)\<rparr>)"
    "w' = w\<lparr>issued := Suc (issued w)\<rparr>"
    by (auto simp: AddHost_def NewObjectId_def Let_def new_def)
  have n: "issued w0 \<le> issued w" using keys by (simp add: host_keys_issued_def)
  have w': "issued w' = Suc (issued w)" "id_supply w' = id_supply w"
    using res(4) by simp_all
  from collision_free_fresh [OF free w'(1) n]
  have nz: "new \<noteq> localhost_id" and nd: "new \<notin> id_supply w ` {issued w0..<issued w}"
    by (simp_all add: new_def w'(2))
  have fresh: "new \<notin> fst ` set (hosts s)"
  proof
    assume "new \<in> fst ` set (hosts s)"
    then obtain h where "(new, h) \<in> set (hosts s)" by auto
    with keys have "new = localhost_id \<or> new \<in> set (issued_ids (issued w0) w)"
      by (auto simp: host_keys_issued_def list_all_iff)
    with nz nd show False by (simp add: set_issued_ids)
  qed
  have id: "Host_Id host' = new" using res(2) by simp
  show ?thesis
    using res fresh id
    by (simp add: Broadcast_def NewObjectId_def new_def [symmetric] update_conv' length_update)
qed

text \<open>
  A caller's host that arrives with the reserved identifier filled in is stored under
  the next generated identifier, which no host of the store has.
\<close>

theorem AddHost_fresh_id_witness:
  "\<exists>st0 s w err host' s' w'.
     NewConfigurationStore ex_plugins ex_order ex_world ex_config [] = Loaded st0 \<and>
     perform_all ex_calls st0 = Returns (s, w) \<and>
     AddHost w s ex_host = (err, host', s', w') \<and>
     collision_free (issued ex_world) w' \<and>
     Host_Id ex_host = localhost_id \<and>
     Host_Id host' = ''iiiiiiiiiii4'' \<and>
     Host_Id host' \<notin> fst ` set (hosts s) \<and>
     length (hosts s') = Suc (length (hosts s))"
proof -
  have "case NewConfigurationStore ex_plugins ex_order ex_world ex_config [] of
          Loaded st0 \<Rightarrow>
            (case perform_all ex_calls st0 of
               Returns (s, w) \<Rightarrow>
                 (case AddHost w s ex_host of
                    (err, host', s', w') \<Rightarrow>
                      collision_free (issued ex_world) w' \<and> Host_Id host' = ''iiiiiiiiiii4'')
             | Panics p \<Rightarrow> False)
        | Failed err \<Rightarrow> False
        | Aborted p \<Rightarrow> False"
    by code_simp
  then obtain st0 s w err host' s' w' where
    load: "NewConfigurationStore ex_plugins ex_order ex_world ex_config [] = Loaded st0"
    and run: "perform_all ex_calls st0 = Returns (s, w)"
    and add: "AddHost w s ex_host = (err, host', s', w')"
    and free: "collision_free (issued ex_world) w'"
    and new: "Host_Id host' = ''iiiiiiiiiii4''"
    by (auto split: load.splits outcome.splits prod.splits)
  have pre: "Host_Id ex_host = localhost_id" by (simp add: ex_host_def)
  from AddHost_fresh_id [OF load run add free]
  have "Host_Id host' \<notin> fst ` set (hosts s)" "length (hosts s') = Suc (length (hosts s))"
    by blast+
  with load run add free pre new show ?thesis by blast
qed

subsection \<open>The interval of loaded monitors\<close>

text \<open>
  Claim C6 says that a monitor record which specifies an interval overrides the default
  of 10 seconds. The loader decodes a monitor record into the proxy structure and into
  the agent, never into the \<^verbatim>\<open>Monitor\<close> it has initialised: the record of the small
  installation asks for 30 seconds and its monitor is loaded with 10.
\<close>

theorem interval_override_counterexample:
  "\<exists>s w'.
     NewConfigurationStore ex_plugins ex_order ex_world ex_config [] = Loaded (s, w') \<and>
     map raw_interval (AllMonitors ex_config) = [Some (30 * Second)] \<and>
     map (Monitor_Interval \<circ> snd) (monitors s) = [10 * Second] \<and>
     10 * Second \<noteq> 30 * Second"
proof -
  have "case NewConfigurationStore ex_plugins ex_order ex_world ex_config [] of
          Loaded (s, w') \<Rightarrow> map (Monitor_Interval \<circ> snd) (monitors s) = [10 * Second]
        | Failed err \<Rightarrow> False
        | Aborted p \<Rightarrow> False"
    by code_simp
  then obtain s w' where
    a: "NewConfigurationStore ex_plugins ex_order ex_world ex_config [] = Loaded (s, w')"
    and b: "map (Monitor_Interval \<circ> snd) (monitors s) = [10 * Second]"
    by (auto split: load.splits)
  have c: "map raw_interval (AllMonitors ex_config) = [Some (30 * Second)]"
    by (simp add: ex_config_def ex_monitor_record_def)
  have d: "10 * Second \<noteq> 30 * Second" by (simp add: Second_def)
  show ?thesis using a b c d by (intro exI [of _ s] exI [of _ w'] conjI)
qed

text \<open>
  Claim C6, as the code has it. Every monitor of a loaded store has an interval of
  exactly 10 seconds, whether its record omits the interval or specifies one: replacing
  the intervals the records specify by any others gives the same store.
\<close>

theorem NewConfigurationStore_interval_fixed:
  assumes "NewConfigurationStore P order w config changes0 = Loaded (s, w')"
  shows "list_all (\<lambda>(k, mon). Monitor_Interval mon = 10 * Second) (monitors s) \<and>
         NewConfigurationStore P order w
           (config\<lparr>AllMonitors := map (\<lambda>pm. pm\<lparr>raw_interval := f pm\<rparr>) (AllMonitors config)\<rparr>)
           changes0 = Loaded (s, w')"
proof -
  from assms obtain s1 w1 where
    h: "load_hosts P (AllHosts config) \<lparr>changes = changes0, hosts = [], monitors = []\<rparr> w =
          Loaded (s1, w1)"
    and m: "load_monitors P order (AllMonitors config) s1 w1 = Loaded (s, w')"
    by (auto simp: NewConfigurationStore_Loaded)
  have "monitors s1 = []" using load_hosts_monitors [OF h] by simp
  then have "list_all (\<lambda>(k, mon). Monitor_Interval mon = 10 * Second) (monitors s1)" by simp
  with m have a: "list_all (\<lambda>(k, mon). Monitor_Interval mon = 10 * Second) (monitors s)"
    by (rule load_monitors_interval)
  have b: "NewConfigurationStore P order w
             (config\<lparr>AllMonitors := map (\<lambda>pm. pm\<lparr>raw_interval := f pm\<rparr>) (AllMonitors config)\<rparr>)
             changes0 = NewConfigurationStore P order w config changes0"
    by (simp add: NewConfigurationStore_def load_monitors_raw_interval split: load.splits)
  from a b assms show ?thesis by simp
qed

text \<open>The small installation, with the interval of its monitor record removed.\<close>

theorem NewConfigurationStore_interval_fixed_witness:
  "\<exists>s w'.
     NewConfigurationStore ex_plugins ex_order ex_world ex_config [] = Loaded (s, w') \<and>
     length (monitors s) = 1 \<and>
     list_all (\<lambda>(k, mon). Monitor_Interval mon = 10 * Second) (monitors s) \<and>
     NewConfigurationStore ex_plugins ex_order ex_world
       (ex_config\<lparr>AllMonitors :=
          map (\<lambda>pm. pm\<lparr>raw_interval := None\<rparr>) (AllMonitors ex_config)\<rparr>) [] = Loaded (s, w')"
proof -
  have "case NewConfigurationStore ex_plugins ex_order ex_world ex_config [] of
          Loaded (s, w') \<Rightarrow> length (monitors s) = 1
        | Failed err \<Rightarrow> False
        | Aborted p \<Rightarrow> False"
    by code_simp
  then obtain s w' where
    load: "NewConfigurationStore ex_plugins ex_order ex_world ex_config [] = Loaded (s, w')"
    and one: "length (monitors s) = 1"
    by (auto split: load.splits)
  from NewConfigurationStore_interval_fixed [OF load, of "\<lambda>pm. None"] load one
  show ?thesis by blast
qed

subsection \<open>A transport that is not registered\<close>

text \<open>
  Claim C2 says that every configuration holding a host record with an unregistered
  transport makes the constructor return the unknown-transport error. The loader returns
  at the first record that fails, in the order of its range over the hosts: when the
  record of \<open>alpha\<close>, which does not decode, is visited before the record of \<open>beta\<close>,
  whose transport \<open>telnet\<close> is not registered, the error returned is the decoding error.
\<close>

theorem unknown_transport_counterexample:
  "AllHosts ex_config_two_faults =
     [(''alpha'', ex_broken_record), (''beta'', ex_host_record ''telnet'')] \<and>
   decode_Host (ex_host_record ''telnet'') =
     Inr \<lparr>Host_Id = [], Host_Name = [], Host_TransportId = ''telnet'', Host_Transport = None\<rparr> \<and>
   GetTransports ex_plugins ''telnet'' = None \<and>
   NewConfigurationStore ex_plugins ex_order ex_world ex_config_two_faults [] =
     Failed (DecodeError ''type mismatch'') \<and>
   DecodeError ''type mismatch'' \<noteq> Errorf (''unknown transport '' @ quoted ''telnet'')"
  by (simp add: ex_config_two_faults_def ex_host_record_def ex_plugins_def
        NewConfigurationStore_def load_host_def ex_broken_record_def)

text \<open>
  Claim C2, as the code has it. When the hosts section holds a record that decodes and
  selects a transport absent from the registry, the constructor never returns a store:
  it returns an error or panics, and nothing can be queried. When every record visited
  before that one loads, the error is the one naming the unknown transport,
  \<open>unknown transport '<selector>'\<close>. Otherwise the load stops at the earliest record
  that fails, with that record's failure: its decoding error when it does not decode,
  the error naming its own selector when its transport is not registered, and a panic
  with the decoding error's text when the decoding into its constructed transport fails.
\<close>

theorem NewConfigurationStore_unknown_transport:
  assumes "AllHosts config = pre @ (name, ph) # post"
    and "decode_Host ph = Inr host0"
    and "GetTransports P (Host_TransportId host0) = None"
  shows "(\<forall>st. NewConfigurationStore P order w config changes0 \<noteq> Loaded st) \<and>
         (list_all (host_record_ok P) pre \<longrightarrow>
            NewConfigurationStore P order w config changes0 =
              Failed (Errorf (''unknown transport '' @ quoted (Host_TransportId host0)))) \<and>
         (\<forall>pre1 name1 ph1 pre2.
            pre = pre1 @ (name1, ph1) # pre2 \<and> list_all (host_record_ok P) pre1 \<longrightarrow>
            (\<forall>err. decode_Host ph1 = Inl err \<longrightarrow>
               NewConfigurationStore P order w config changes0 = Failed (DecodeError err)) \<and>
            (\<forall>h. decode_Host ph1 = Inr h \<and> GetTransports P (Host_TransportId h) = None \<longrightarrow>
               NewConfigurationStore P order w config changes0 =
                 Failed (Errorf (''unknown transport '' @ quoted (Host_TransportId h)))) \<and>
            (\<forall>h init err.
               decode_Host ph1 = Inr h \<and> GetTransports P (Host_TransportId h) = Some init \<and>
               decode_Transport ph1 init = Inl err \<longrightarrow>
               NewConfigurationStore P order w config changes0 = Aborted (PanicMsg err)))"
proof -
  have a: "\<forall>st. NewConfigurationStore P order w config changes0 \<noteq> Loaded st"
  proof
    fix st
    show "NewConfigurationStore P order w config changes0 \<noteq> Loaded st"
      using load_hosts_unknown_transport_not_Loaded [OF assms(2,3)]
      by (cases st) (auto simp: NewConfigurationStore_Loaded assms(1))
  qed
  have b: "list_all (host_record_ok P) pre \<longrightarrow>
             NewConfigurationStore P order w config changes0 =
               Failed (Errorf (''unknown transport '' @ quoted (Host_TransportId host0)))"
  proof
    assume "list_all (host_record_ok P) pre"
    from load_hosts_unknown_transport_first [OF assms(2,3) this]
    show "NewConfigurationStore P order w config changes0 =
            Failed (Errorf (''unknown transport '' @ quoted (Host_TransportId host0)))"
      by (simp add: NewConfigurationStore_def assms(1))
  qed
  have c: "\<forall>pre1 name1 ph1 pre2.
            pre = pre1 @ (name1, ph1) # pre2 \<and> list_all (host_record_ok P) pre1 \<longrightarrow>
            (\<forall>err. decode_Host ph1 = Inl err \<longrightarrow>
               NewConfigurationStore P order w config changes0 = Failed (DecodeError err)) \<and>
            (\<forall>h. decode_Host ph1 = Inr h \<and> GetTransports P (Host_TransportId h) = None \<longrightarrow>
               NewConfigurationStore P order w config changes0 =
                 Failed (Errorf (''unknown transport '' @ quoted (Host_TransportId h)))) \<and>
            (\<forall>h init err.
               decode_Host ph1 = Inr h \<and> GetTransports P (Host_TransportId h) = Some init \<and>
               decode_Transport ph1 init = Inl err \<longrightarrow>
               NewConfigurationStore P order w config changes0 = Aborted (PanicMsg err))"
  proof (intro allI impI, elim conjE)
    fix pre1 name1 ph1 pre2
    assume split: "pre = pre1 @ (name1, ph1) # pre2" and ok: "list_all (host_record_ok P) pre1"
    have all: "AllHosts config = pre1 @ (name1, ph1) # (pre2 @ (name, ph) # post)"
      by (simp add: assms(1) split)
    show "(\<forall>err. decode_Host ph1 = Inl err \<longrightarrow>
               NewConfigurationStore P order w config changes0 = Failed (DecodeError err)) \<and>
            (\<forall>h. decode_Host ph1 = Inr h \<and> GetTransports P (Host_TransportId h) = None \<longrightarrow>
               NewConfigurationStore P order w config changes0 =
                 Failed (Errorf (''unknown transport '' @ quoted (Host_TransportId h)))) \<and>
            (\<forall>h init err.
               decode_Host ph1 = Inr h \<and> GetTransports P (Host_TransportId h) = Some init \<and>
               decode_Transport ph1 init = Inl err \<longrightarrow>
               NewConfigurationStore P order w config changes0 = Aborted (PanicMsg err))"
    proof (intro conjI allI impI)
      fix err
      assume "decode_Host ph1 = Inl err"
      then have "\<And>s w. load_host P (name1, ph1) s w = Failed (DecodeError err)"
        by (rule load_host_decode_error)
      from load_hosts_stops_at [OF ok this]
      show "NewConfigurationStore P order w config changes0 = Failed (DecodeError err)"
        by (simp add: NewConfigurationStore_hosts_Failed all)
    next
      fix h
      assume "decode_Host ph1 = Inr h \<and> GetTransports P (Host_TransportId h) = None"
      then have "\<And>s w. load_host P (name1, ph1) s w =
                   Failed (Errorf (''unknown transport '' @ quoted (Host_TransportId h)))"
        by (simp add: load_host_unknown_transport)
      from load_hosts_stops_at [OF ok this]
      show "NewConfigurationStore P order w config changes0 =
              Failed (Errorf (''unknown transport '' @ quoted (Host_TransportId h)))"
        by (simp add: NewConfigurationStore_hosts_Failed all)
    next
      fix h init err
      assume "decode_Host ph1 = Inr h \<and> GetTransports P (Host_TransportId h) = Some init \<and>
              decode_Transport ph1 init = Inl err"
      then have "\<And>s w. load_host P (name1, ph1) s w = Aborted (PanicMsg err)"
        by (simp add: load_host_transport_panic)
      from load_hosts_aborts_at [OF ok this]
      show "NewConfigurationStore P order w config changes0 = Aborted (PanicMsg err)"
        by (simp add: NewConfigurationStore_hosts_Aborted all)
    qed
  qed
  from a b c show ?thesis by (intro conjI)
qed

text \<open>
  A hosts section where \<open>web\<close> loads and \<open>beta\<close> selects the unregistered \<open>telnet\<close>, and
  one where \<open>alpha\<close>, visited first, does not decode.
\<close>

theorem NewConfigurationStore_unknown_transport_witness:
  "AllHosts ex_config_telnet =
     [(''web'', ex_host_record ''ssh'')] @ (''beta'', ex_host_record ''telnet'') # [] \<and>
   AllHosts ex_config_two_faults =
     [(''alpha'', ex_broken_record)] @ (''beta'', ex_host_record ''telnet'') # [] \<and>
   decode_Host (ex_host_record ''telnet'') =
     Inr \<lparr>Host_Id = [], Host_Name = [], Host_TransportId = ''telnet'', Host_Transport = None\<rparr> \<and>
   GetTransports ex_plugins ''telnet'' = None \<and>
   list_all (host_record_ok ex_plugins) [(''web'', ex_host_record ''ssh'')] \<and>
   NewConfigurationStore ex_plugins ex_order ex_world ex_config_telnet [] =
     Failed (Errorf (''unknown transport '' @ quoted ''telnet'')) \<and>
   decode_Host ex_broken_record = Inl ''type mismatch'' \<and>
   NewConfigurationStore ex_plugins ex_order ex_world ex_config_two_faults [] =
     Failed (DecodeError ''type mismatch'')"
proof -
  have a: "AllHosts ex_config_telnet =
             [(''web'', ex_host_record ''ssh'')] @ (''beta'', ex_host_record ''telnet'') # []"
    by (simp add: ex_config_telnet_def)
  have a': "AllHosts ex_config_two_faults =
             [(''alpha'', ex_broken_record)] @ (''beta'', ex_host_record ''telnet'') # []"
    by (simp add: ex_config_two_faults_def)
  have b: "decode_Host (ex_host_record ''telnet'') =
             Inr \<lparr>Host_Id = [], Host_Name = [], Host_TransportId = ''telnet'', Host_Transport = None\<rparr>"
    by (simp add: ex_host_record_def)
  have c: "GetTransports ex_plugins
             (Host_TransportId \<lparr>Host_Id = [], Host_Name = [], Host_TransportId = ''telnet'',
                Host_Transport = None\<rparr>) = None"
    by (simp add: ex_plugins_def)
  have d: "list_all (host_record_ok ex_plugins) [(''web'', ex_host_record ''ssh'')]"
    by (simp add: host_record_ok_def ex_host_record_def ex_plugins_def)
  have e: "decode_Host ex_broken_record = Inl ''type mismatch''"
    by (simp add: ex_broken_record_def)
  note T = NewConfigurationStore_unknown_transport [OF a b c,
      where order = ex_order and w = ex_world and ?changes0.0 = "[]"]
  from T have "list_all (host_record_ok ex_plugins) [(''web'', ex_host_record ''ssh'')] \<longrightarrow>
                 NewConfigurationStore ex_plugins ex_order ex_world ex_config_telnet [] =
                   Failed (Errorf (''unknown transport '' @
                     quoted (Host_TransportId \<lparr>Host_Id = [], Host_Name = [],
                       Host_TransportId = ''telnet'', Host_Transport = None\<rparr>)))"
    by (rule conjunct2 [THEN conjunct1])
  with d have f: "NewConfigurationStore ex_plugins ex_order ex_world ex_config_telnet [] =
                    Failed (Errorf (''unknown transport '' @ quoted ''telnet''))"
    by simp
  note T' = NewConfigurationStore_unknown_transport [OF a' b c,
      where order = ex_order and w = ex_world and ?changes0.0 = "[]"]
  from T' have "[(''alpha'', ex_broken_record)] = [] @ (''alpha'', ex_broken_record) # [] \<and>
                list_all (host_record_ok ex_plugins) [] \<longrightarrow>
                (\<forall>err. decode_Host ex_broken_record = Inl err \<longrightarrow>
                   NewConfigurationStore ex_plugins ex_order ex_world ex_config_two_faults [] =
                     Failed (DecodeError err)) \<and>
                (\<forall>h. decode_Host ex_broken_record = Inr h \<and>
                      GetTransports ex_plugins (Host_TransportId h) = None \<longrightarrow>
                   NewConfigurationStore ex_plugins ex_order ex_world ex_config_two_faults [] =
                     Failed (Errorf (''unknown transport '' @ quoted (Host_TransportId h)))) \<and>
                (\<forall>h init err.
                   decode_Host ex_broken_record = Inr h \<and>
                   GetTransports ex_plugins (Host_TransportId h) = Some init \<and>
                   decode_Transport ex_broken_record init = Inl err \<longrightarrow>
                   NewConfigurationStore ex_plugins ex_order ex_world ex_config_two_faults [] =
                     Aborted (PanicMsg err))"
    by (elim conjE allE)
  then have "\<forall>err. decode_Host ex_broken_record = Inl err \<longrightarrow>
                   NewConfigurationStore ex_plugins ex_order ex_world ex_config_two_faults [] =
                     Failed (DecodeError err)"
    by simp
  with e have g: "NewConfigurationStore ex_plugins ex_order ex_world ex_config_two_faults [] =
                    Failed (DecodeError ''type mismatch'')"
    by simp
  from c have c': "GetTransports ex_plugins ''telnet'' = None" by simp
  show ?thesis using a a' b c' d f e g by (intro conjI)
qed

subsection \<open>A name that matches no host\<close>




subsection \<open>What GetHostByName hands out\<close>



end
